theory Spec2Isabelle
  imports Main
begin

section \<open>Go integers and strings\<close>

text \<open>
  Go's \<open>int\<close> is a 64-bit two's complement integer on the supported targets.  Values
  are modelled as \<open>int\<close>; \<open>go_int\<close> is the wrap-around of an arithmetic result and is
  written at every operation whose operands are not bounded by a slice length.
  Slice lengths and indices below them always fit, so \<open>len(xs) - 1\<close>, \<open>i++\<close> under
  \<open>i < len(xs) - 1\<close> and \<open>i--\<close> under \<open>i > 0\<close> are plain integer arithmetic.

  A Go \<open>string\<close> is a byte sequence: \<open>len\<close> counts bytes and \<open>s[:n]\<close> cuts bytes,
  which is what \<open>length\<close> and \<open>take\<close> do on a HOL \<open>string\<close>.
\<close>

definition go_int :: "int \<Rightarrow> int" where
  "go_int k = signed_take_bit 63 k"

definition in_go_int :: "int \<Rightarrow> bool" where
  "in_go_int k \<longleftrightarrow> - (2 ^ 63) \<le> k \<and> k < 2 ^ 63"

definition len :: "'a list \<Rightarrow> int" where
  "len xs = int (length xs)"

section \<open>Package agent: the Claude Code subprocess\<close>

text \<open>
  An \<open>error\<close> value is modelled by its message; \<open>nil\<close> is \<open>None\<close>.  The two sentinel
  errors of the package are constructors of their own.
\<close>

datatype agent_error = ErrAgentAlreadyRunning | ErrAgentNotStarted | Err string

text \<open>
  \<open>exec.Cmd\<close> as far as \<open>Wait\<close> and \<open>Cancel\<close> read it: \<open>Process\<close> is \<open>nil\<close> until
  \<open>cmd.Start\<close> has succeeded and holds the process id afterwards.
\<close>

record Cmd =
  Process :: "int option"

text \<open>
  The fields of \<open>ClaudeCode\<close> that \<open>Start\<close>, \<open>Wait\<close>, \<open>Cancel\<close> and \<open>IsRunning\<close>
  branch on.  The pipes, the context and the configuration only shape the spawned
  command; the mutex serialises the accesses to \<open>running\<close> and has no value.
\<close>

record ClaudeCode =
  cmd :: "Cmd option"
  running :: bool
  startTime :: int

text \<open>
  What the operating system does is an input of each operation; what the operation asks
  of it is returned as a list of actions, in program order.
\<close>

datatype action =
    Process_Signal_Interrupt
  | Process_Kill
  | Taskkill_Tree int
  | Cmd_Wait
  | Select_Done_Or_After int
  | Store_running bool


definition NewClaudeCode :: ClaudeCode where
  "NewClaudeCode = \<lparr>cmd = None, running = False, startTime = 0\<rparr>"

record start_os =
  StdoutPipe_err :: "string option"
  StderrPipe_err :: "string option"
  Start_err :: "string option"
  Start_pid :: int
  Start_now :: int

definition Start :: "ClaudeCode \<Rightarrow> start_os \<Rightarrow> ClaudeCode \<times> agent_error option" where
  "Start c os =
     (if running c then (c, Some ErrAgentAlreadyRunning)
      else
        let c1 = c\<lparr>cmd := Some \<lparr>Process = None\<rparr>\<rparr> in
        case StdoutPipe_err os of
          Some e \<Rightarrow> (c1, Some (Err (''failed to create stdout pipe: '' @ e)))
        | None \<Rightarrow>
           (case StderrPipe_err os of
              Some e \<Rightarrow> (c1, Some (Err (''failed to create stderr pipe: '' @ e)))
            | None \<Rightarrow>
               (case Start_err os of
                  Some e \<Rightarrow> (c1, Some (Err (''failed to start claude: '' @ e)))
                | None \<Rightarrow>
                    (c1\<lparr>cmd := Some \<lparr>Process = Some (Start_pid os)\<rparr>,
                        running := True, startTime := Start_now os\<rparr>, None))))"

text \<open>The three ways \<open>cmd.Wait()\<close> can come back.\<close>

datatype wait_outcome = Wait_nil | Wait_ExitError int | Wait_error string

definition Wait :: "ClaudeCode \<Rightarrow> wait_outcome \<Rightarrow> ClaudeCode \<times> action list \<times> int \<times> agent_error option" where
  "Wait c outcome =
     (if cmd c = None then (c, [], - 1, Some ErrAgentNotStarted)
      else
        let c1 = c\<lparr>running := False\<rparr>;
            acts = [Cmd_Wait, Store_running False]
        in case outcome of
             Wait_ExitError code \<Rightarrow> (c1, acts, code, None)
           | Wait_error e \<Rightarrow> (c1, acts, - 1, Some (Err e))
           | Wait_nil \<Rightarrow> (c1, acts, 0, None))"




definition ClaudeCode_IsRunning :: "ClaudeCode \<Rightarrow> bool" where
  "ClaudeCode_IsRunning c = running c"


section \<open>Package ui: the dashboard\<close>

subsection \<open>Data\<close>

text \<open>
  Modelled from the spec: the declarations of \<open>agent.OutputLine\<close> and \<open>agent.Result\<close>
  are missing; the fields are those the spec lists and the dashboard reads.  Instants and
  durations are integers (nanoseconds).
\<close>

record OutputLine =
  Text :: string
  IsStderr :: bool
  Timestamp :: int

record Result =
  ExitCode :: int
  Duration :: int
  Error :: "string option"

text \<open>
  \<open>'r\<close> is a reference to an \<open>agent.Runner\<close>, whose code is missing; what its methods
  \<open>IsRunning\<close> and \<open>PID\<close> answer at the moment of a call is an input.
\<close>

record 'r AgentPanel =
  ID :: string
  TaskID :: string
  TaskTitle :: string
  AgentName :: string
  Runner :: "'r option"
  Output :: "OutputLine list"
  StartTime :: int
  EndTime :: int
  Result :: "Result option"
  ScrollPos :: int
  Follow :: bool
  Focused :: bool
  Closed :: bool
  Stopping :: bool
  PID :: int

datatype 'r Event =
    ListenerConnected
  | ListenerError "string option"
  | AddAgent string string string "'r option"
  | AgentOutput string OutputLine
  | AgentCompleted string Result
  | versionCheck string bool
  | OtherEvent

datatype inputAction =
    actionNone
  | actionQuit
  | actionToggleMode
  | actionSelectNext
  | actionSelectPrev
  | actionStop
  | actionClose
  | actionScrollLines
  | actionScrollPage
  | actionScrollTop
  | actionScrollBottom
  | actionFollow

text \<open>The field \<open>value\<close> of \<open>inputEvent\<close> is \<open>val\<close> here.\<close>

record inputEvent =
  action :: inputAction
  val :: int

text \<open>
  A buffered channel is its queue and its capacity.  \<open>trySend\<close> is the
  \<open>select { case ch <- x: ... default: ... }\<close> of the source: the value is queued when
  there is room and the default branch runs otherwise.
\<close>

record 'a chan =
  buf :: "'a list"
  cap :: nat

definition make_chan :: "nat \<Rightarrow> 'a chan" where
  "make_chan n = \<lparr>buf = [], cap = n\<rparr>"

definition trySend :: "'a chan \<Rightarrow> 'a \<Rightarrow> 'a chan \<times> bool" where
  "trySend ch x =
     (if length (buf ch) < cap ch then (ch\<lparr>buf := buf ch @ [x]\<rparr>, True) else (ch, False))"

text \<open>
  The dashboard.  \<open>'m\<close> is \<open>ExecutionMode\<close>, whose declaration is missing.  The panel
  list holds pointers in the source; every panel is allocated by \<open>addAgentPanel\<close> and
  referenced from this list only, so a list of values has the same behaviour.  \<open>area\<close>
  says whether the terminal area has been set.  The two update channels are read
  elsewhere: their queues hold what the reader has not taken yet.
\<close>

record ('m, 'r) Dashboard =
  criteria :: string
  mode :: 'm
  modeUpdates :: "'m chan option"
  stopUpdates :: "string chan option"
  events :: "'r Event chan"
  inputs :: "inputEvent chan"
  listening :: bool
  connected :: bool
  lastError :: "string option"
  taskCount :: int
  panels :: "'r AgentPanel list"
  focusedPanel :: int
  nextPanelID :: int
  progressTick :: int
  updateAvailable :: bool
  latestVersion :: string
  width :: int
  height :: int
  area :: bool

text \<open>
  What the dashboard asks of its surroundings during one call: \<open>Mode_Toggle\<close> is
  \<open>ExecutionMode.Toggle\<close>, \<open>Runner_IsRunning\<close> and \<open>Runner_PID\<close> are the answers of the
  runners, \<open>parseClaudeOutput\<close> is the parser of the output lines (its code is missing),
  \<open>time_Now\<close> the clock and \<open>GetTerminalWidth\<close>, \<open>GetTerminalHeight\<close> the terminal
  size.
\<close>

record ('m, 'r) world =
  Mode_Toggle :: "'m \<Rightarrow> 'm"
  Runner_IsRunning :: "'r \<Rightarrow> bool"
  Runner_PID :: "'r \<Rightarrow> int"
  parseClaudeOutput :: "string \<Rightarrow> string"
  time_Now :: int
  GetTerminalWidth :: int
  GetTerminalHeight :: int

text \<open>A call of \<open>Runner.Cancel\<close>, with the index of the panel that holds the runner.\<close>

datatype 'r call = Runner_Cancel nat 'r

fun call_panel :: "'r call \<Rightarrow> nat" where
  "call_panel (Runner_Cancel i r) = i"

section \<open>Dashboard helpers: scroll clamp and truncation\<close>

text \<open>\<open>clampScroll\<close> of the dashboard, branch by branch.\<close>

definition clampScroll :: "int \<Rightarrow> int \<Rightarrow> int \<Rightarrow> bool \<Rightarrow> int" where
  "clampScroll totalLines viewHeight current follow =
     (if viewHeight \<le> 0 then 0
      else
        let maxStart0 = go_int (totalLines - viewHeight);
            maxStart = (if maxStart0 < 0 then 0 else maxStart0)
        in if follow then maxStart
           else if current < 0 then 0
           else if current > maxStart then maxStart
           else current)"

text \<open>\<open>truncate\<close> of the dashboard (package ui).\<close>

definition truncate :: "string \<Rightarrow> int \<Rightarrow> string" where
  "truncate s maxLen =
     (if maxLen \<le> 0 then ''''
      else if len s \<le> maxLen then s
      else if maxLen \<le> 3 then take (nat maxLen) s
      else take (nat (maxLen - 3)) s @ ''...'')"

text \<open>\<open>truncateString\<close> of the agent pane (package tui).\<close>

definition truncateString :: "string \<Rightarrow> int \<Rightarrow> string" where
  "truncateString s maxLen =
     (if maxLen \<le> 3 then s
      else if len s \<le> maxLen then s
      else take (nat (maxLen - 3)) s @ ''...'')"

subsection \<open>Construction and the exported setters\<close>

definition NewDashboard :: "string \<Rightarrow> 'm \<Rightarrow> 'm chan option \<Rightarrow> string chan option \<Rightarrow> ('m, 'r) Dashboard" where
  "NewDashboard crit md mu su =
     \<lparr>criteria = crit, mode = md, modeUpdates = mu, stopUpdates = su,
      events = make_chan 200, inputs = make_chan 50,
      listening = False, connected = False, lastError = None, taskCount = 0,
      panels = [], focusedPanel = - 1, nextPanelID = 0, progressTick = 0,
      updateAvailable = False, latestVersion = '''', width = 0, height = 0, area = False\<rparr>"

definition IsRunning :: "('m, 'r) world \<Rightarrow> 'r AgentPanel \<Rightarrow> bool" where
  "IsRunning w p = (case Runner p of None \<Rightarrow> False | Some r \<Rightarrow> Runner_IsRunning w r)"

definition IsFinished :: "'r AgentPanel \<Rightarrow> bool" where
  "IsFinished p = (Result p \<noteq> None)"

definition SetListening :: "('m, 'r) Dashboard \<Rightarrow> bool \<Rightarrow> ('m, 'r) Dashboard" where
  "SetListening d l = d\<lparr>listening := l\<rparr>"

definition SetConnected :: "('m, 'r) Dashboard \<Rightarrow> bool \<Rightarrow> ('m, 'r) Dashboard" where
  "SetConnected d c = d\<lparr>connected := c\<rparr>"

definition SetError :: "('m, 'r) Dashboard \<Rightarrow> string option \<Rightarrow> ('m, 'r) Dashboard" where
  "SetError d err = (if err \<noteq> None then d\<lparr>lastError := err\<rparr> else d\<lparr>lastError := None\<rparr>)"

definition GetOpenPanelCount :: "('m, 'r) Dashboard \<Rightarrow> int" where
  "GetOpenPanelCount d = len (panels d)"

definition HasRunningAgents :: "('m, 'r) world \<Rightarrow> ('m, 'r) Dashboard \<Rightarrow> bool" where
  "HasRunningAgents w d = list_ex (IsRunning w) (panels d)"

text \<open>\<open>Send\<close>: the non-blocking send on the event channel, the error by its message.\<close>

definition Send :: "('m, 'r) Dashboard \<Rightarrow> 'r Event \<Rightarrow> ('m, 'r) Dashboard \<times> string option" where
  "Send d event =
     (case trySend (events d) event of
        (ch, True) \<Rightarrow> (d\<lparr>events := ch\<rparr>, None)
      | (ch, False) \<Rightarrow> (d, Some ''dashboard event queue is full''))"

subsection \<open>Scrolling\<close>

text \<open>
  The view height.  The division is reached with a positive height only, where Go's
  truncating \<open>/\<close> and \<open>div\<close> agree.
\<close>

definition outputViewHeight :: "('m, 'r) Dashboard \<Rightarrow> int" where
  "outputViewHeight d =
     (if height d \<le> 0 then 8
      else
        let view = height d div 3;
            view1 = (if view < 8 then 8 else view);
            view2 = (if view1 > 18 then 18 else view1)
        in view2)"

text \<open>
  The guard that opens every operation on the focused panel,
  \<open>d.focusedPanel < 0 || d.focusedPanel >= len(d.panels)\<close>, negated.
\<close>

definition focus_in_range :: "('m, 'r) Dashboard \<Rightarrow> bool" where
  "focus_in_range d \<longleftrightarrow> \<not> (focusedPanel d < 0 \<or> focusedPanel d \<ge> len (panels d))"

definition ensureFollow :: "('m, 'r) Dashboard \<Rightarrow> int \<Rightarrow> ('m, 'r) Dashboard" where
  "ensureFollow d index =
     (if index < 0 \<or> index \<ge> len (panels d) then d
      else
        let panel = panels d ! nat index;
            panel1 = panel\<lparr>Follow := True\<rparr>;
            panel2 = panel1\<lparr>ScrollPos :=
              clampScroll (len (Output panel1)) (outputViewHeight d) (ScrollPos panel1) True\<rparr>
        in d\<lparr>panels := (panels d)[nat index := panel2]\<rparr>)"

definition scrollOutput :: "('m, 'r) Dashboard \<Rightarrow> int \<Rightarrow> ('m, 'r) Dashboard" where
  "scrollOutput d delta =
     (if \<not> focus_in_range d then d
      else
        let panel = panels d ! nat (focusedPanel d);
            panel1 = panel\<lparr>Follow := False\<rparr>;
            panel2 = panel1\<lparr>ScrollPos :=
              clampScroll (len (Output panel1)) (outputViewHeight d)
                (go_int (ScrollPos panel1 + delta)) False\<rparr>
        in d\<lparr>panels := (panels d)[nat (focusedPanel d) := panel2]\<rparr>)"

definition scrollToTop :: "('m, 'r) Dashboard \<Rightarrow> ('m, 'r) Dashboard" where
  "scrollToTop d =
     (if \<not> focus_in_range d then d
      else
        let panel = panels d ! nat (focusedPanel d);
            panel1 = panel\<lparr>Follow := False\<rparr>;
            panel2 = panel1\<lparr>ScrollPos := 0\<rparr>
        in d\<lparr>panels := (panels d)[nat (focusedPanel d) := panel2]\<rparr>)"

definition scrollToBottom :: "('m, 'r) Dashboard \<Rightarrow> ('m, 'r) Dashboard" where
  "scrollToBottom d =
     (if \<not> focus_in_range d then d
      else
        let panel = panels d ! nat (focusedPanel d);
            panel1 = panel\<lparr>Follow := True\<rparr>;
            panel2 = panel1\<lparr>ScrollPos :=
              clampScroll (len (Output panel1)) (outputViewHeight d) (ScrollPos panel1) True\<rparr>
        in d\<lparr>panels := (panels d)[nat (focusedPanel d) := panel2]\<rparr>)"

definition setFollow :: "('m, 'r) Dashboard \<Rightarrow> bool \<Rightarrow> ('m, 'r) Dashboard" where
  "setFollow d follow =
     (if \<not> focus_in_range d then d
      else
        let panel = panels d ! nat (focusedPanel d);
            panel1 = panel\<lparr>Follow := follow\<rparr>;
            panel2 = panel1\<lparr>ScrollPos :=
              clampScroll (len (Output panel1)) (outputViewHeight d) (ScrollPos panel1) follow\<rparr>
        in d\<lparr>panels := (panels d)[nat (focusedPanel d) := panel2]\<rparr>)"

definition refreshSize :: "('m, 'r) world \<Rightarrow> ('m, 'r) Dashboard \<Rightarrow> ('m, 'r) Dashboard" where
  "refreshSize w d =
     (let d1 = (if GetTerminalWidth w > 0 then d\<lparr>width := GetTerminalWidth w\<rparr> else d);
          d2 = (if GetTerminalHeight w > 0 then d1\<lparr>height := GetTerminalHeight w\<rparr> else d1)
      in d2)"

text \<open>
  \<open>render\<close> as a state change: the frame goes to the terminal; what stays in the
  dashboard is the scroll position that \<open>renderOutput\<close> stores for a following panel.
\<close>

definition renderOutput :: "('m, 'r) Dashboard \<Rightarrow> ('m, 'r) Dashboard" where
  "renderOutput d =
     (if \<not> focus_in_range d then d
      else
        let panel = panels d ! nat (focusedPanel d) in
        if Follow panel
        then d\<lparr>panels := (panels d)[nat (focusedPanel d) := panel\<lparr>ScrollPos :=
               clampScroll (len (Output panel)) (outputViewHeight d) (ScrollPos panel) True\<rparr>]\<rparr>
        else d)"

definition render :: "('m, 'r) Dashboard \<Rightarrow> ('m, 'r) Dashboard" where
  "render d = (if \<not> area d then d else renderOutput d)"

subsection \<open>Panels\<close>

text \<open>\<open>fmt.Sprintf("%d", n)\<close>: the decimal digits, with a sign for a negative number.\<close>

fun digits :: "nat \<Rightarrow> string" where
  "digits n = (if n < 10 then [''0123456789'' ! n]
               else digits (n div 10) @ [''0123456789'' ! (n mod 10)])"

declare digits.simps [simp del]

definition Sprintf_d :: "int \<Rightarrow> string" where
  "Sprintf_d k = (if k < 0 then CHR ''-'' # digits (nat (- k)) else digits (nat k))"

definition addAgentPanel ::
  "('m, 'r) world \<Rightarrow> ('m, 'r) Dashboard \<Rightarrow> string \<Rightarrow> string \<Rightarrow> string \<Rightarrow> 'r option \<Rightarrow> ('m, 'r) Dashboard" where
  "addAgentPanel w d taskID taskTitle agentName runner =
     (let d1 = d\<lparr>nextPanelID := go_int (nextPanelID d + 1)\<rparr>;
          panel_id = ''agent-'' @ Sprintf_d (nextPanelID d1);
          pid = (case runner of None \<Rightarrow> 0 | Some r \<Rightarrow> Runner_PID w r);
          panel = \<lparr>ID = panel_id, TaskID = taskID, TaskTitle = taskTitle, AgentName = agentName,
                   Runner = runner, Output = [], StartTime = time_Now w, EndTime = 0,
                   Result = None, ScrollPos = 0, Follow = True, Focused = False,
                   Closed = False, Stopping = False, PID = pid\<rparr>;
          d2 = d1\<lparr>panels := panels d1 @ [panel]\<rparr>
      in if len (panels d2) = 1 then d2\<lparr>focusedPanel := 0\<rparr> else d2)"

definition Dashboard_AddAgent ::
  "('m, 'r) world \<Rightarrow> ('m, 'r) Dashboard \<Rightarrow> string \<Rightarrow> string \<Rightarrow> string \<Rightarrow> 'r option \<Rightarrow> ('m, 'r) Dashboard \<times> string" where
  "Dashboard_AddAgent w d taskID taskTitle agentName runner =
     (let d1 = addAgentPanel w d taskID taskTitle agentName runner
      in if len (panels d1) > 0 then (d1, ID (last (panels d1))) else (d1, ''''))"

text \<open>
  The loop of \<open>appendAgentOutput\<close> over the panels: the first panel with the task id ends
  the loop, whether the line is kept or dropped.
\<close>

fun appendAgentOutput_loop ::
  "(string \<Rightarrow> string) \<Rightarrow> int \<Rightarrow> string \<Rightarrow> OutputLine \<Rightarrow> 'r AgentPanel list \<Rightarrow> 'r AgentPanel list" where
  "appendAgentOutput_loop parse vh taskID line [] = []"
| "appendAgentOutput_loop parse vh taskID line (panel # rest) =
     (if TaskID panel \<noteq> taskID then panel # appendAgentOutput_loop parse vh taskID line rest
      else
        let parsed = parse (Text line) in
        if parsed = '''' then panel # rest
        else
          let parsedLine = \<lparr>Text = parsed, IsStderr = IsStderr line, Timestamp = Timestamp line\<rparr>;
              panel1 = panel\<lparr>Output := Output panel @ [parsedLine]\<rparr>;
              panel2 = (if Follow panel1
                        then panel1\<lparr>ScrollPos :=
                               clampScroll (len (Output panel1)) vh (ScrollPos panel1) True\<rparr>
                        else panel1)
          in panel2 # rest)"

definition appendAgentOutput ::
  "('m, 'r) world \<Rightarrow> ('m, 'r) Dashboard \<Rightarrow> string \<Rightarrow> OutputLine \<Rightarrow> ('m, 'r) Dashboard" where
  "appendAgentOutput w d taskID line =
     d\<lparr>panels := appendAgentOutput_loop (parseClaudeOutput w) (outputViewHeight d) taskID line
                    (panels d)\<rparr>"

text \<open>The loop of \<open>completeAgent\<close>; the flag says whether a panel had the task id.\<close>

fun completeAgent_loop ::
  "int \<Rightarrow> string \<Rightarrow> Result \<Rightarrow> 'r AgentPanel list \<Rightarrow> 'r AgentPanel list \<times> bool" where
  "completeAgent_loop now taskID result [] = ([], False)"
| "completeAgent_loop now taskID result (panel # rest) =
     (if TaskID panel \<noteq> taskID
      then (case completeAgent_loop now taskID result rest of
              (rest', found) \<Rightarrow> (panel # rest', found))
      else (panel\<lparr>Result := Some result, EndTime := now, Runner := None\<rparr> # rest, True))"

definition completeAgent ::
  "('m, 'r) world \<Rightarrow> ('m, 'r) Dashboard \<Rightarrow> string \<Rightarrow> Result \<Rightarrow> ('m, 'r) Dashboard" where
  "completeAgent w d taskID result =
     (case completeAgent_loop (time_Now w) taskID result (panels d) of
        (ps, True) \<Rightarrow> d\<lparr>panels := ps, taskCount := go_int (taskCount d + 1)\<rparr>
      | (ps, False) \<Rightarrow> d)"

definition stopFocusedPanel ::
  "('m, 'r) world \<Rightarrow> ('m, 'r) Dashboard \<Rightarrow> ('m, 'r) Dashboard \<times> 'r call list" where
  "stopFocusedPanel w d =
     (if \<not> focus_in_range d then (d, [])
      else
        let i = nat (focusedPanel d);
            panel = panels d ! i
        in if IsRunning w panel \<and> Runner panel \<noteq> None \<and> \<not> Stopping panel
           then
             (case Runner panel of
                None \<Rightarrow> (d, [])
              | Some r \<Rightarrow>
                  (d\<lparr>panels := (panels d)[i := panel\<lparr>Stopping := True\<rparr>],
                     stopUpdates := (case stopUpdates d of
                                       None \<Rightarrow> None
                                     | Some ch \<Rightarrow> Some (fst (trySend ch (TaskID panel))))\<rparr>,
                   [Runner_Cancel i r]))
           else (d, []))"

definition closeFocusedPanel :: "('m, 'r) Dashboard \<Rightarrow> ('m, 'r) Dashboard" where
  "closeFocusedPanel d =
     (if \<not> focus_in_range d then d
      else
        let d1 = d\<lparr>panels := take (nat (focusedPanel d)) (panels d)
                               @ drop (nat (focusedPanel d + 1)) (panels d)\<rparr>
        in if len (panels d1) = 0 then d1\<lparr>focusedPanel := - 1\<rparr>
           else if focusedPanel d1 \<ge> len (panels d1)
           then d1\<lparr>focusedPanel := len (panels d1) - 1\<rparr>
           else d1)"

text \<open>
  The sweep of \<open>CancelAllAgents\<close>.  A call of \<open>Runner.Cancel\<close> takes time, so the answer
  of \<open>IsRunning\<close> may differ from one panel to the next: \<open>obs i\<close> is the surroundings as
  the loop finds them at panel \<open>i\<close>.
\<close>

fun CancelAllAgents_loop ::
  "(nat \<Rightarrow> ('m, 'r) world) \<Rightarrow> nat \<Rightarrow> 'r AgentPanel list \<Rightarrow> 'r AgentPanel list \<times> 'r call list" where
  "CancelAllAgents_loop obs i [] = ([], [])"
| "CancelAllAgents_loop obs i (p # rest) =
     (case CancelAllAgents_loop obs (Suc i) rest of
        (rest', calls) \<Rightarrow>
          if IsRunning (obs i) p \<and> Runner p \<noteq> None \<and> \<not> Stopping p
          then (case Runner p of
                  None \<Rightarrow> (p # rest', calls)
                | Some r \<Rightarrow> (p\<lparr>Stopping := True\<rparr> # rest', Runner_Cancel i r # calls))
          else (p # rest', calls))"

definition CancelAllAgents ::
  "(nat \<Rightarrow> ('m, 'r) world) \<Rightarrow> ('m, 'r) Dashboard \<Rightarrow> ('m, 'r) Dashboard \<times> 'r call list" where
  "CancelAllAgents obs d =
     (case CancelAllAgents_loop obs 0 (panels d) of
        (ps, calls) \<Rightarrow> (d\<lparr>panels := ps\<rparr>, calls))"

subsection \<open>The two handlers and the loop\<close>

text \<open>The non-blocking send of the new mode, when the mode channel is not \<open>nil\<close>.\<close>

definition sendModeUpdate :: "('m, 'r) Dashboard \<Rightarrow> ('m, 'r) Dashboard" where
  "sendModeUpdate d =
     (case modeUpdates d of
        None \<Rightarrow> d
      | Some ch \<Rightarrow> d\<lparr>modeUpdates := Some (fst (trySend ch (mode d)))\<rparr>)"

definition handleInput ::
  "('m, 'r) world \<Rightarrow> ('m, 'r) Dashboard \<Rightarrow> inputEvent \<Rightarrow> bool \<times> ('m, 'r) Dashboard \<times> 'r call list" where
  "handleInput w d input =
     (case action input of
        actionQuit \<Rightarrow> (True, d, [])
      | actionToggleMode \<Rightarrow> (False, sendModeUpdate (d\<lparr>mode := Mode_Toggle w (mode d)\<rparr>), [])
      | actionSelectNext \<Rightarrow>
          if len (panels d) = 0 then (False, d, [])
          else
            let d1 = (if focusedPanel d < len (panels d) - 1
                      then d\<lparr>focusedPanel := focusedPanel d + 1\<rparr>
                      else d\<lparr>focusedPanel := 0\<rparr>)
            in (False, ensureFollow d1 (focusedPanel d1), [])
      | actionSelectPrev \<Rightarrow>
          if len (panels d) = 0 then (False, d, [])
          else
            let d1 = (if focusedPanel d > 0
                      then d\<lparr>focusedPanel := focusedPanel d - 1\<rparr>
                      else d\<lparr>focusedPanel := len (panels d) - 1\<rparr>)
            in (False, ensureFollow d1 (focusedPanel d1), [])
      | actionStop \<Rightarrow> (case stopFocusedPanel w d of (d1, calls) \<Rightarrow> (False, d1, calls))
      | actionClose \<Rightarrow> (False, closeFocusedPanel d, [])
      | actionScrollLines \<Rightarrow> (False, scrollOutput d (val input), [])
      | actionScrollPage \<Rightarrow>
          (False, scrollOutput d (go_int (val input * outputViewHeight d)), [])
      | actionScrollTop \<Rightarrow> (False, scrollToTop d, [])
      | actionScrollBottom \<Rightarrow> (False, scrollToBottom d, [])
      | actionFollow \<Rightarrow> (False, setFollow d True, [])
      | actionNone \<Rightarrow> (False, d, []))"

definition handleEvent ::
  "('m, 'r) world \<Rightarrow> ('m, 'r) Dashboard \<Rightarrow> 'r Event \<Rightarrow> ('m, 'r) Dashboard" where
  "handleEvent w d ev =
     (case ev of
        ListenerConnected \<Rightarrow> d\<lparr>connected := True, listening := True, lastError := None\<rparr>
      | ListenerError err \<Rightarrow> d\<lparr>lastError := err\<rparr>
      | AddAgent taskID taskTitle agentName runner \<Rightarrow>
          addAgentPanel w d taskID taskTitle agentName runner
      | AgentOutput taskID line \<Rightarrow> appendAgentOutput w d taskID line
      | AgentCompleted taskID result \<Rightarrow> completeAgent w d taskID result
      | versionCheck latest available \<Rightarrow>
          d\<lparr>updateAvailable := available, latestVersion := latest\<rparr>
      | OtherEvent \<Rightarrow> d)"

text \<open>
  The state in which \<open>Run\<close> enters its loop: the area is set and the size is read.
\<close>

definition Run_start :: "('m, 'r) world \<Rightarrow> ('m, 'r) Dashboard \<Rightarrow> ('m, 'r) Dashboard" where
  "Run_start w d = render (refreshSize w (d\<lparr>area := True\<rparr>))"

text \<open>
  One turn of the loop of \<open>Run\<close> serves one source and renders; the entry into the loop
  and the exported operations that change the dashboard are turns of their own.  Each turn meets its own surroundings.
  \<open>run\<close> takes the turns in order and stops at the turn that quits.
\<close>

datatype ('m, 'r) turn =
    Run_Start "('m, 'r) world"
  | Turn_Event "('m, 'r) world" "'r Event"
  | Turn_Input "('m, 'r) world" inputEvent
  | Turn_Tick "('m, 'r) world"
  | Call_AddAgent "('m, 'r) world" string string string "'r option"
  | Call_CancelAllAgents "nat \<Rightarrow> ('m, 'r) world"
  | Call_SetListening bool
  | Call_SetConnected bool
  | Call_SetError "string option"
  | Call_Send "'r Event"

fun run_turn :: "('m, 'r) Dashboard \<Rightarrow> ('m, 'r) turn \<Rightarrow> bool \<times> ('m, 'r) Dashboard \<times> 'r call list" where
  "run_turn d (Run_Start w) = (False, Run_start w d, [])"
| "run_turn d (Turn_Event w ev) = (False, render (handleEvent w d ev), [])"
| "run_turn d (Turn_Input w input) =
     (case handleInput w d input of
        (True, d1, calls) \<Rightarrow> (True, d1, calls)
      | (False, d1, calls) \<Rightarrow> (False, render d1, calls))"
| "run_turn d (Turn_Tick w) =
     (False, render (refreshSize w (d\<lparr>progressTick := go_int (progressTick d + 1)\<rparr>)), [])"
| "run_turn d (Call_AddAgent w taskID taskTitle agentName runner) =
     (False, fst (Dashboard_AddAgent w d taskID taskTitle agentName runner), [])"
| "run_turn d (Call_CancelAllAgents obs) =
     (case CancelAllAgents obs d of (d1, calls) \<Rightarrow> (False, d1, calls))"
| "run_turn d (Call_SetListening l) = (False, SetListening d l, [])"
| "run_turn d (Call_SetConnected c) = (False, SetConnected d c, [])"
| "run_turn d (Call_SetError err) = (False, SetError d err, [])"
| "run_turn d (Call_Send ev) = (False, fst (Send d ev), [])"

fun run :: "('m, 'r) Dashboard \<Rightarrow> ('m, 'r) turn list \<Rightarrow> ('m, 'r) Dashboard" where
  "run d [] = d"
| "run d (t # ts) =
     (case run_turn d t of
        (True, d1, calls) \<Rightarrow> d1
      | (False, d1, calls) \<Rightarrow> run d1 ts)"

text \<open>The focus is an index of the panel list, or \<open>-1\<close> when there is no panel.\<close>

definition focus_ok :: "('m, 'r) Dashboard \<Rightarrow> bool" where
  "focus_ok d \<longleftrightarrow>
     (if panels d = [] then focusedPanel d = - 1
      else 0 \<le> focusedPanel d \<and> focusedPanel d < len (panels d))"

section \<open>Notions used in the statements\<close>

text \<open>Two dashboards with panel lists of the same length and the same focus.\<close>

definition same_focus :: "('m, 'r) Dashboard \<Rightarrow> ('m, 'r) Dashboard \<Rightarrow> bool" where
  "same_focus d d' \<longleftrightarrow>
     length (panels d') = length (panels d) \<and> focusedPanel d' = focusedPanel d"

text \<open>The focused panel, and a panel that follows and is scrolled to the bottom.\<close>

definition focused :: "('m, 'r) Dashboard \<Rightarrow> 'r AgentPanel" where
  "focused d = panels d ! nat (focusedPanel d)"

definition at_bottom :: "('m, 'r) Dashboard \<Rightarrow> 'r AgentPanel \<Rightarrow> bool" where
  "at_bottom d p \<longleftrightarrow> Follow p \<and> ScrollPos p = max 0 (len (Output p) - outputViewHeight d)"

text \<open>The number of \<open>Runner.Cancel\<close> calls made for the panel at index \<open>i\<close>.\<close>

definition calls_for :: "nat \<Rightarrow> 'r call list \<Rightarrow> nat" where
  "calls_for i calls = length (filter (\<lambda>c. call_panel c = i) calls)"

text \<open>The stores to the \<open>running\<close> flag among the actions of an operation.\<close>

fun is_Store_running :: "action \<Rightarrow> bool" where
  "is_Store_running (Store_running b) = True"
| "is_Store_running a = False"

subsection \<open>Concrete inputs\<close>

text \<open>An agent after a successful \<open>Start\<close>.\<close>

definition started :: ClaudeCode where
  "started = fst (Start NewClaudeCode
      \<lparr>StdoutPipe_err = None, StderrPipe_err = None, Start_err = None,
       Start_pid = 4242, Start_now = 17\<rparr>)"

text \<open>
  Surroundings in which every runner is running, the parser drops the line \<open>{}\<close> and
  marks every other line, and the terminal has 30 rows.
\<close>

definition world0 :: "(bool, nat) world" where
  "world0 = \<lparr>Mode_Toggle = Not, Runner_IsRunning = (\<lambda>r. True), Runner_PID = (\<lambda>r. int r),
             parseClaudeOutput = (\<lambda>s. if s = ''{}'' then '''' else ''> '' @ s),
             time_Now = 100, GetTerminalWidth = 120, GetTerminalHeight = 30\<rparr>"

definition panel0 :: "string \<Rightarrow> string \<Rightarrow> nat \<Rightarrow> nat AgentPanel" where
  "panel0 pid tid r =
     \<lparr>ID = pid, TaskID = tid, TaskTitle = ''title'', AgentName = ''Claude Code'',
      Runner = Some r, Output = [], StartTime = 100, EndTime = 0, Result = None,
      ScrollPos = 0, Follow = True, Focused = False, Closed = False, Stopping = False,
      PID = int r\<rparr>"

text \<open>A dashboard with the panels of the tasks \<open>T1\<close>, \<open>T2\<close> and \<open>T3\<close> and the given focus.\<close>

definition dash0 :: "int \<Rightarrow> (bool, nat) Dashboard" where
  "dash0 f =
     \<lparr>criteria = ''all'', mode = False, modeUpdates = None, stopUpdates = None,
      events = make_chan 200, inputs = make_chan 50,
      listening = True, connected = True, lastError = None, taskCount = 0,
      panels = [panel0 ''agent-1'' ''T1'' 1, panel0 ''agent-2'' ''T2'' 2,
                panel0 ''agent-3'' ''T3'' 3],
      focusedPanel = f, nextPanelID = 3, progressTick = 0,
      updateAvailable = False, latestVersion = '''', width = 120, height = 30, area = True\<rparr>"

definition add_task :: "string \<Rightarrow> nat \<Rightarrow> (bool, nat) turn" where
  "add_task tid r = Turn_Event world0 (AddAgent tid ''title'' ''Claude Code'' (Some r))"

definition press :: "inputAction \<Rightarrow> inputEvent" where
  "press a = \<lparr>action = a, val = 0\<rparr>"

section \<open>The scroll clamp and the truncation\<close>

lemma go_int_id: "in_go_int k \<Longrightarrow> go_int k = k"
  unfolding go_int_def in_go_int_def
  by (simp add: signed_take_bit_int_eq_self)

text \<open>
  C1.  For every line count \<open>T \<ge> 0\<close>, view height \<open>V\<close> and requested position \<open>P\<close>
  (Go integers), \<open>clampScroll\<close> returns 0 when \<open>V \<le> 0\<close>; otherwise, with
  \<open>maxStart = max 0 (T - V)\<close>, it returns \<open>maxStart\<close> in follow mode and \<open>P\<close> clamped
  into \<open>[0, maxStart]\<close> without it.  The function has no failing branch.
\<close>

theorem clampScroll_correct:
  assumes "0 \<le> T" and "in_go_int T" and "in_go_int V"
  shows "clampScroll T V P follow =
           (if V \<le> 0 then 0
            else if follow then max 0 (T - V)
            else max 0 (min P (max 0 (T - V))))"
proof (cases "V \<le> 0")
  case True
  then show ?thesis by (simp add: clampScroll_def)
next
  case False
  with assms have "in_go_int (T - V)"
    by (simp add: in_go_int_def)
  then have "go_int (T - V) = T - V"
    by (rule go_int_id)
  with False show ?thesis
    by (simp add: clampScroll_def Let_def max_def min_def)
qed

theorem clampScroll_correct_witness:
  "0 \<le> (5::int) \<and> in_go_int 5 \<and> in_go_int 3 \<and> clampScroll 5 3 10 False = 2
     \<and> clampScroll 5 3 0 True = 2 \<and> clampScroll 5 3 (-1) False = 0"
proof -
  have a: "0 \<le> (5::int)" and b: "in_go_int 5" and c: "in_go_int 3"
    by (simp_all add: in_go_int_def)
  show ?thesis
    using a b c clampScroll_correct [OF a b c, of 10 False]
      clampScroll_correct [OF a b c, of 0 True]
      clampScroll_correct [OF a b c, of "-1" False]
    by simp
qed

text \<open>
  C8.  For every string \<open>s\<close> and every \<open>n \<ge> 0\<close>, \<open>truncate s n\<close> has at most \<open>n\<close>
  bytes; it is the empty string for \<open>n = 0\<close>, the first \<open>n\<close> bytes of \<open>s\<close> with no
  ellipsis for \<open>n \<le> 3\<close>, the first \<open>n - 3\<close> bytes followed by three dots for
  \<open>3 < n < len s\<close>, and \<open>s\<close> itself whenever \<open>len s \<le> n\<close>.
\<close>

theorem truncate_spec:
  "0 \<le> n \<Longrightarrow>
     len (truncate s n) \<le> n
   \<and> truncate s 0 = ''''
   \<and> (n \<le> 3 \<longrightarrow> truncate s n = take (nat n) s)
   \<and> (3 < n \<and> n < len s \<longrightarrow> truncate s n = take (nat (n - 3)) s @ ''...'')
   \<and> (len s \<le> n \<longrightarrow> truncate s n = s)"
  by (auto simp: truncate_def len_def)

theorem truncate_spec_witness:
  "(0::int) \<le> 8 \<and> truncate ''hello world'' 8 = ''hello...''
    \<and> len (truncate ''hello world'' 8) \<le> 8
    \<and> truncate ''hello'' 3 = ''hel''
    \<and> truncate ''hello'' 0 = ''''
    \<and> truncate ''hello'' 10 = ''hello''"
  using truncate_spec [of 8 "''hello world''"] truncate_spec [of 3 "''hello''"]
    truncate_spec [of 10 "''hello''"]
  by (simp add: len_def)

text \<open>
  The agent pane of package tui has a helper of its own, \<open>truncateString\<close>.  It agrees
  with \<open>truncate\<close> for a width above 3 and returns its argument unchanged for a width
  of at most 3, where \<open>truncate\<close> cuts.
\<close>

lemma truncateString_vs_truncate:
  "(3 < n \<longrightarrow> truncateString s n = truncate s n)
   \<and> (n \<le> 3 \<longrightarrow> truncateString s n = s)"
  by (auto simp: truncate_def truncateString_def len_def)

lemma truncateString_short_width:
  "truncateString ''hello'' 3 = ''hello'' \<and> truncate ''hello'' 3 = ''hel''"
  by (simp add: truncateString_def truncate_def len_def)

section \<open>The agent: \<open>Wait\<close> and \<open>Cancel\<close>\<close>

lemma started_eq:
  "started = \<lparr>cmd = Some \<lparr>Process = Some 4242\<rparr>, running = True, startTime = 17\<rparr>"
  by (simp add: started_def Start_def NewClaudeCode_def)




text \<open>
  C3.  \<open>Wait\<close> on an agent that was never started (no command) returns \<open>-1\<close> and
  \<open>ErrAgentNotStarted\<close> and leaves the agent as it is.  On an agent with a command, an
  exit error with code \<open>n\<close> gives \<open>(n, nil)\<close>, any other failure gives \<open>-1\<close> and the
  cause, a normal exit gives \<open>(0, nil)\<close>; whatever the outcome, the \<open>running\<close> flag is
  stored once, with \<open>false\<close>.
\<close>

theorem Wait_behaviour:
  "Wait NewClaudeCode outcome = (NewClaudeCode, [], - 1, Some ErrAgentNotStarted)
   \<and> (cmd c = None \<longrightarrow> Wait c outcome = (c, [], - 1, Some ErrAgentNotStarted))
   \<and> (cmd c \<noteq> None \<longrightarrow>
        Wait c (Wait_ExitError n)
          = (c\<lparr>running := False\<rparr>, [Cmd_Wait, Store_running False], n, None)
      \<and> Wait c (Wait_error e)
          = (c\<lparr>running := False\<rparr>, [Cmd_Wait, Store_running False], - 1, Some (Err e))
      \<and> Wait c Wait_nil
          = (c\<lparr>running := False\<rparr>, [Cmd_Wait, Store_running False], 0, None)
      \<and> filter is_Store_running (fst (snd (Wait c outcome))) = [Store_running False]
      \<and> \<not> running (fst (Wait c outcome)))"
  by (cases outcome) (simp_all add: Wait_def NewClaudeCode_def)

theorem Wait_behaviour_witness:
  "cmd started \<noteq> None
   \<and> Wait started (Wait_ExitError 2)
       = (started\<lparr>running := False\<rparr>, [Cmd_Wait, Store_running False], 2, None)
   \<and> Wait started (Wait_error ''wait: no child processes'')
       = (started\<lparr>running := False\<rparr>, [Cmd_Wait, Store_running False], - 1,
          Some (Err ''wait: no child processes''))
   \<and> Wait started Wait_nil
       = (started\<lparr>running := False\<rparr>, [Cmd_Wait, Store_running False], 0, None)
   \<and> cmd NewClaudeCode = None
   \<and> Wait NewClaudeCode Wait_nil = (NewClaudeCode, [], - 1, Some ErrAgentNotStarted)"
  using Wait_behaviour [of Wait_nil started 2 "''wait: no child processes''"]
  by (simp add: started_eq NewClaudeCode_def)

section \<open>The dashboard\<close>

subsection \<open>Sending an event\<close>

text \<open>
  C9.  \<open>Send\<close> queues the event and returns \<open>nil\<close> when the event channel has room; when
  the channel is full it returns the dashboard unchanged together with an error.  The
  channel of a new dashboard holds 200 events.
\<close>

theorem Send_reports_full_queue:
  "(length (buf (events (d :: ('m, 'r) Dashboard))) < cap (events d) \<longrightarrow>
      Send d ev = (d\<lparr>events := (events d)\<lparr>buf := buf (events d) @ [ev]\<rparr>\<rparr>, None))
   \<and> (cap (events d) \<le> length (buf (events d)) \<longrightarrow>
      Send d ev = (d, Some ''dashboard event queue is full''))
   \<and> cap (events (NewDashboard crit md mu su :: ('m, 'r) Dashboard)) = 200"
  by (simp add: Send_def trySend_def NewDashboard_def make_chan_def)

theorem Send_reports_full_queue_witness:
  "length (buf (events (dash0 0))) < cap (events (dash0 0))
   \<and> Send (dash0 0) OtherEvent
       = ((dash0 0)\<lparr>events := \<lparr>buf = [OtherEvent], cap = 200\<rparr>\<rparr>, None)
   \<and> cap (events ((dash0 0)\<lparr>events := \<lparr>buf = replicate 200 OtherEvent, cap = 200\<rparr>\<rparr>))
       \<le> length (buf (events ((dash0 0)\<lparr>events := \<lparr>buf = replicate 200 OtherEvent, cap = 200\<rparr>\<rparr>)))
   \<and> Send ((dash0 0)\<lparr>events := \<lparr>buf = replicate 200 OtherEvent, cap = 200\<rparr>\<rparr>) ListenerConnected
       = ((dash0 0)\<lparr>events := \<lparr>buf = replicate 200 OtherEvent, cap = 200\<rparr>\<rparr>,
          Some ''dashboard event queue is full'')"
  using Send_reports_full_queue [of "dash0 0" OtherEvent "''all''" False None None]
    Send_reports_full_queue
      [of "(dash0 0)\<lparr>events := \<lparr>buf = replicate 200 OtherEvent, cap = 200\<rparr>\<rparr>"
          ListenerConnected "''all''" False None None]
  by (simp add: dash0_def make_chan_def)

subsection \<open>Closing the focused panel\<close>

text \<open>
  C5.  The close action removes the focused panel.  Closing the only panel sets the focus
  to \<open>-1\<close>; closing a focused panel that is not the last keeps the focus index, which
  now holds the panel that followed; closing the last of two or more panels moves the
  focus to the new last index.
\<close>

theorem closeFocusedPanel_focus:
  assumes "0 \<le> focusedPanel d" and "focusedPanel d < len (panels d)"
  shows "handleInput w d \<lparr>action = actionClose, val = v\<rparr> = (False, closeFocusedPanel d, [])
    \<and> panels (closeFocusedPanel d)
        = take (nat (focusedPanel d)) (panels d) @ drop (Suc (nat (focusedPanel d))) (panels d)
    \<and> (len (panels d) = 1 \<longrightarrow>
         focusedPanel (closeFocusedPanel d) = - 1 \<and> panels (closeFocusedPanel d) = [])
    \<and> (focusedPanel d < len (panels d) - 1 \<longrightarrow>
         focusedPanel (closeFocusedPanel d) = focusedPanel d
         \<and> panels (closeFocusedPanel d) ! nat (focusedPanel d)
             = panels d ! Suc (nat (focusedPanel d)))
    \<and> (focusedPanel d = len (panels d) - 1 \<and> 2 \<le> len (panels d) \<longrightarrow>
         focusedPanel (closeFocusedPanel d) = len (panels d) - 2
         \<and> focusedPanel (closeFocusedPanel d) = len (panels (closeFocusedPanel d)) - 1)"
proof -
  let ?f = "nat (focusedPanel d)"
  let ?ps = "take ?f (panels d) @ drop (Suc ?f) (panels d)"
  from assms have inr: "focus_in_range d"
    by (simp add: focus_in_range_def)
  from assms have f: "?f < length (panels d)"
    by (simp add: len_def)
  from assms have suc: "nat (focusedPanel d + 1) = Suc ?f"
    by simp
  have ps: "panels (closeFocusedPanel d) = ?ps"
    using inr suc by (simp add: closeFocusedPanel_def Let_def)
  have lps: "length ?ps = length (panels d) - 1"
    using f by simp
  have foc: "focusedPanel (closeFocusedPanel d) =
      (if length ?ps = 0 then - 1
       else if focusedPanel d \<ge> int (length ?ps) then int (length ?ps) - 1 else focusedPanel d)"
    using inr suc f assms(1) by (auto simp: closeFocusedPanel_def Let_def len_def min_def)
  have nth: "focusedPanel d < len (panels d) - 1 \<Longrightarrow> ?ps ! ?f = panels d ! Suc ?f"
    using f by (simp add: nth_append len_def)
  have c1: "len (panels d) = 1 \<longrightarrow>
         focusedPanel (closeFocusedPanel d) = - 1 \<and> panels (closeFocusedPanel d) = []"
    using foc ps lps f by (auto simp: len_def)
  have c2: "focusedPanel d < len (panels d) - 1 \<longrightarrow>
         focusedPanel (closeFocusedPanel d) = focusedPanel d
         \<and> panels (closeFocusedPanel d) ! nat (focusedPanel d)
             = panels d ! Suc (nat (focusedPanel d))"
    using foc lps f nth assms by (auto simp: len_def ps)
  have c3: "focusedPanel d = len (panels d) - 1 \<and> 2 \<le> len (panels d) \<longrightarrow>
         focusedPanel (closeFocusedPanel d) = len (panels d) - 2
         \<and> focusedPanel (closeFocusedPanel d) = len (panels (closeFocusedPanel d)) - 1"
    using foc lps f assms by (auto simp: len_def ps)
  have c0: "handleInput w d \<lparr>action = actionClose, val = v\<rparr> = (False, closeFocusedPanel d, [])"
    by (simp add: handleInput_def)
  from c0 ps c1 c2 c3 show ?thesis by blast
qed

lemma dash0_panels:
  "panels (dash0 f) = [panel0 ''agent-1'' ''T1'' 1, panel0 ''agent-2'' ''T2'' 2,
                       panel0 ''agent-3'' ''T3'' 3]"
  "focusedPanel (dash0 f) = f" "height (dash0 f) = 30" "stopUpdates (dash0 f) = None"
  by (simp_all add: dash0_def)

theorem closeFocusedPanel_focus_witness:
  "0 \<le> focusedPanel (dash0 1) \<and> focusedPanel (dash0 1) < len (panels (dash0 1))
   \<and> focusedPanel (dash0 1) < len (panels (dash0 1)) - 1
   \<and> focusedPanel (closeFocusedPanel (dash0 1)) = 1
   \<and> panels (closeFocusedPanel (dash0 1))
        = [panel0 ''agent-1'' ''T1'' 1, panel0 ''agent-3'' ''T3'' 3]
   \<and> focusedPanel (dash0 2) = len (panels (dash0 2)) - 1 \<and> 2 \<le> len (panels (dash0 2))
   \<and> focusedPanel (closeFocusedPanel (dash0 2)) = 1
   \<and> len (panels (closeFocusedPanel (closeFocusedPanel (dash0 2)))) = 1
   \<and> focusedPanel (closeFocusedPanel (closeFocusedPanel (closeFocusedPanel (dash0 2)))) = - 1"
proof -
  have a: "0 \<le> focusedPanel (dash0 1)" "focusedPanel (dash0 1) < len (panels (dash0 1))"
    and b: "0 \<le> focusedPanel (dash0 2)" "focusedPanel (dash0 2) < len (panels (dash0 2))"
    by (simp_all add: dash0_panels len_def)
  note t1 = closeFocusedPanel_focus [OF a, of world0 0]
  note t2 = closeFocusedPanel_focus [OF b, of world0 0]
  let ?d1 = "closeFocusedPanel (dash0 2)"
  from t2 have d1: "focusedPanel ?d1 = 1"
    "panels ?d1 = [panel0 ''agent-1'' ''T1'' 1, panel0 ''agent-2'' ''T2'' 2]"
    by (simp_all add: dash0_panels len_def)
  then have c: "0 \<le> focusedPanel ?d1" "focusedPanel ?d1 < len (panels ?d1)"
    by (simp_all add: len_def)
  note t3 = closeFocusedPanel_focus [OF c, of world0 0]
  let ?d2 = "closeFocusedPanel ?d1"
  from t3 d1 have d2: "focusedPanel ?d2 = 0" "panels ?d2 = [panel0 ''agent-1'' ''T1'' 1]"
    by (simp_all add: len_def)
  then have e: "0 \<le> focusedPanel ?d2" "focusedPanel ?d2 < len (panels ?d2)"
    by (simp_all add: len_def)
  note t4 = closeFocusedPanel_focus [OF e, of world0 0]
  from t4 d2 have d3: "focusedPanel (closeFocusedPanel ?d2) = - 1"
    by (simp add: len_def)
  from t1 have "focusedPanel (closeFocusedPanel (dash0 1)) = 1"
    "panels (closeFocusedPanel (dash0 1))
        = [panel0 ''agent-1'' ''T1'' 1, panel0 ''agent-3'' ''T3'' 3]"
    by (simp_all add: dash0_panels len_def)
  with a b d1 d2 d3 show ?thesis
    by (simp add: dash0_panels len_def)
qed

subsection \<open>The focus stays an index of the panel list\<close>

lemma same_focus_ok:
  assumes "focus_ok d" and "same_focus d d'"
  shows "focus_ok d'"
proof -
  from assms(2) have "panels d' = [] \<longleftrightarrow> panels d = []"
    unfolding same_focus_def by (metis length_0_conv)
  with assms show ?thesis
    by (simp add: focus_ok_def same_focus_def len_def split: if_splits)
qed

lemma same_focus_ensureFollow: "same_focus d (ensureFollow d i)"
  by (simp add: ensureFollow_def same_focus_def Let_def)

lemma same_focus_scrollOutput: "same_focus d (scrollOutput d k)"
  by (simp add: scrollOutput_def same_focus_def Let_def)

lemma same_focus_scrollToTop: "same_focus d (scrollToTop d)"
  by (simp add: scrollToTop_def same_focus_def Let_def)

lemma same_focus_scrollToBottom: "same_focus d (scrollToBottom d)"
  by (simp add: scrollToBottom_def same_focus_def Let_def)

lemma same_focus_setFollow: "same_focus d (setFollow d b)"
  by (simp add: setFollow_def same_focus_def Let_def)

lemma same_focus_refreshSize: "same_focus d (refreshSize w d)"
  by (simp add: refreshSize_def same_focus_def Let_def)

lemma same_focus_render: "same_focus d (render d)"
  by (simp add: render_def renderOutput_def same_focus_def Let_def)

lemma same_focus_Run_start: "same_focus d (Run_start w d)"
  by (simp add: Run_start_def render_def renderOutput_def refreshSize_def same_focus_def Let_def)

lemma length_appendAgentOutput_loop:
  "length (appendAgentOutput_loop parse vh taskID line ps) = length ps"
  by (induction ps) (simp_all add: Let_def)

lemma same_focus_appendAgentOutput: "same_focus d (appendAgentOutput w d taskID line)"
  by (simp add: appendAgentOutput_def same_focus_def length_appendAgentOutput_loop)

lemma length_completeAgent_loop:
  "length (fst (completeAgent_loop now taskID result ps)) = length ps"
  by (induction ps) (auto split: prod.splits)

lemma same_focus_completeAgent: "same_focus d (completeAgent w d taskID result)"
  using length_completeAgent_loop [of "time_Now w" taskID result "panels d"]
  by (auto simp: completeAgent_def same_focus_def split: prod.splits bool.splits)

lemma same_focus_stopFocusedPanel: "same_focus d (fst (stopFocusedPanel w d))"
  by (simp add: stopFocusedPanel_def same_focus_def Let_def split: option.splits)

lemma length_CancelAllAgents_loop:
  "CancelAllAgents_loop obs i ps = (ps', calls) \<Longrightarrow> length ps' = length ps"
  by (induction ps arbitrary: i ps' calls) (auto split: prod.splits option.splits if_splits)

lemma same_focus_CancelAllAgents: "same_focus d (fst (CancelAllAgents obs d))"
  by (auto simp: CancelAllAgents_def same_focus_def split: prod.splits
        dest: length_CancelAllAgents_loop)

lemma same_focus_sendModeUpdate: "same_focus d (sendModeUpdate d)"
  by (simp add: sendModeUpdate_def same_focus_def split: option.splits)

lemma same_focus_Send: "same_focus d (fst (Send d ev))"
  by (simp add: Send_def same_focus_def split: prod.splits bool.splits)

lemma focus_ok_addAgentPanel:
  "focus_ok d \<Longrightarrow> focus_ok (addAgentPanel w d taskID taskTitle agentName runner)"
  by (auto simp: addAgentPanel_def focus_ok_def len_def Let_def split: if_splits)

lemma focus_ok_closeFocusedPanel: "focus_ok d \<Longrightarrow> focus_ok (closeFocusedPanel d)"
  by (auto simp: closeFocusedPanel_def focus_ok_def focus_in_range_def len_def Let_def
        split: if_splits)

lemma focus_ok_select_next:
  "focus_ok d \<Longrightarrow> action input = actionSelectNext \<Longrightarrow>
     focus_ok (fst (snd (handleInput w d input)))"
  by (auto simp: handleInput_def focus_ok_def len_def Let_def ensureFollow_def split: if_splits)

lemma focus_ok_select_prev:
  "focus_ok d \<Longrightarrow> action input = actionSelectPrev \<Longrightarrow>
     focus_ok (fst (snd (handleInput w d input)))"
  by (auto simp: handleInput_def focus_ok_def len_def Let_def ensureFollow_def split: if_splits)

lemma focus_ok_handleInput:
  assumes ok: "focus_ok d"
  shows "focus_ok (fst (snd (handleInput w d input)))"
proof (cases "action input")
  case actionSelectNext
  with ok show ?thesis by (simp add: focus_ok_select_next)
next
  case actionSelectPrev
  with ok show ?thesis by (simp add: focus_ok_select_prev)
next
  case actionToggleMode
  have "same_focus d (sendModeUpdate (d\<lparr>mode := Mode_Toggle w (mode d)\<rparr>))"
    using same_focus_sendModeUpdate [of "d\<lparr>mode := Mode_Toggle w (mode d)\<rparr>"]
    by (simp add: same_focus_def)
  with ok actionToggleMode show ?thesis
    by (simp add: handleInput_def same_focus_ok)
next
  case actionStop
  with ok same_focus_stopFocusedPanel [of d w] show ?thesis
    by (auto simp: handleInput_def split: prod.splits intro: same_focus_ok)
next
  case actionClose
  with ok show ?thesis by (simp add: handleInput_def focus_ok_closeFocusedPanel)
next
  case actionScrollLines
  with ok show ?thesis
    by (simp add: handleInput_def same_focus_ok [OF _ same_focus_scrollOutput])
next
  case actionScrollPage
  with ok show ?thesis
    by (simp add: handleInput_def same_focus_ok [OF _ same_focus_scrollOutput])
next
  case actionScrollTop
  with ok show ?thesis
    by (simp add: handleInput_def same_focus_ok [OF _ same_focus_scrollToTop])
next
  case actionScrollBottom
  with ok show ?thesis
    by (simp add: handleInput_def same_focus_ok [OF _ same_focus_scrollToBottom])
next
  case actionFollow
  with ok show ?thesis
    by (simp add: handleInput_def same_focus_ok [OF _ same_focus_setFollow])
next
  case actionNone
  with ok show ?thesis by (simp add: handleInput_def)
next
  case actionQuit
  with ok show ?thesis by (simp add: handleInput_def)
qed

lemma focus_ok_handleEvent:
  assumes ok: "focus_ok d"
  shows "focus_ok (handleEvent w d ev)"
proof (cases ev)
  case (AddAgent a b c r)
  with ok show ?thesis by (simp add: handleEvent_def focus_ok_addAgentPanel)
next
  case (AgentOutput t l)
  with ok show ?thesis
    by (simp add: handleEvent_def same_focus_ok [OF _ same_focus_appendAgentOutput])
next
  case (AgentCompleted t r)
  with ok show ?thesis
    by (simp add: handleEvent_def same_focus_ok [OF _ same_focus_completeAgent])
next
  case ListenerConnected
  with ok show ?thesis by (simp add: handleEvent_def focus_ok_def)
next
  case (ListenerError e)
  with ok show ?thesis by (simp add: handleEvent_def focus_ok_def)
next
  case (versionCheck v a)
  with ok show ?thesis by (simp add: handleEvent_def focus_ok_def)
next
  case OtherEvent
  with ok show ?thesis by (simp add: handleEvent_def)
qed

lemma focus_ok_render: "focus_ok d \<Longrightarrow> focus_ok (render d)"
  by (rule same_focus_ok [OF _ same_focus_render])

lemma focus_ok_run_turn:
  assumes ok: "focus_ok d"
  shows "focus_ok (fst (snd (run_turn d t)))"
proof (cases t)
  case (Run_Start w)
  with ok show ?thesis
    by (simp add: same_focus_ok [OF _ same_focus_Run_start])
next
  case (Turn_Event w ev)
  with ok show ?thesis
    by (simp add: focus_ok_render focus_ok_handleEvent)
next
  case (Turn_Input w i)
  from ok have "focus_ok (fst (snd (handleInput w d i)))" by (rule focus_ok_handleInput)
  with Turn_Input show ?thesis
    by (auto split: prod.splits bool.splits simp: focus_ok_render)
next
  case (Turn_Tick w)
  from ok have "focus_ok (refreshSize w (d\<lparr>progressTick := go_int (progressTick d + 1)\<rparr>))"
    using same_focus_refreshSize [of "d\<lparr>progressTick := go_int (progressTick d + 1)\<rparr>" w]
    by (auto intro: same_focus_ok simp: same_focus_def)
  with Turn_Tick show ?thesis by (simp add: focus_ok_render)
next
  case (Call_AddAgent w a b c r)
  with ok show ?thesis
    by (simp add: Dashboard_AddAgent_def Let_def focus_ok_addAgentPanel)
next
  case (Call_CancelAllAgents obs)
  with ok same_focus_CancelAllAgents [of d obs] show ?thesis
    by (auto split: prod.splits intro: same_focus_ok)
next
  case (Call_Send ev)
  with ok show ?thesis
    by (simp add: same_focus_ok [OF _ same_focus_Send])
next
  case (Call_SetListening l)
  with ok show ?thesis by (simp add: focus_ok_def SetListening_def)
next
  case (Call_SetConnected c)
  with ok show ?thesis by (simp add: focus_ok_def SetConnected_def)
next
  case (Call_SetError e)
  with ok show ?thesis by (simp add: focus_ok_def SetError_def)
qed

lemma focus_ok_run: "focus_ok d \<Longrightarrow> focus_ok (run d ts)"
proof (induction ts arbitrary: d)
  case Nil
  then show ?case by simp
next
  case (Cons t ts)
  from Cons.prems have ok: "focus_ok (fst (snd (run_turn d t)))" by (rule focus_ok_run_turn)
  obtain q d1 calls where rt: "run_turn d t = (q, d1, calls)" by (cases "run_turn d t") auto
  with ok have "focus_ok d1" by simp
  with rt Cons.IH [of d1] show ?case by (cases q) simp_all
qed

text \<open>
  C4.  In every state that the dashboard reaches from a new dashboard (no panel, focus
  \<open>-1\<close>) by domain events, input actions, ticks and the exported operations, the focus
  is \<open>-1\<close> exactly when there is no panel, and is an index of the panel list otherwise.
\<close>

theorem focus_invariant:
  "(focusedPanel (run (NewDashboard crit md mu su) ts) = - 1
      \<longleftrightarrow> panels (run (NewDashboard crit md mu su) ts) = [])
   \<and> (panels (run (NewDashboard crit md mu su) ts) \<noteq> [] \<longrightarrow>
        0 \<le> focusedPanel (run (NewDashboard crit md mu su) ts)
        \<and> focusedPanel (run (NewDashboard crit md mu su) ts)
            < len (panels (run (NewDashboard crit md mu su) ts)))"
proof -
  have "focus_ok (NewDashboard crit md mu su)"
    by (simp add: focus_ok_def NewDashboard_def)
  then have "focus_ok (run (NewDashboard crit md mu su) ts)"
    by (rule focus_ok_run)
  then show ?thesis
    by (auto simp: focus_ok_def split: if_splits)
qed

theorem focus_invariant_witness:
  "panels (run (NewDashboard ''all'' False None None)
      [Run_Start world0, add_task ''T1'' 1, add_task ''T2'' 2,
       Turn_Input world0 (press actionSelectNext), Turn_Input world0 (press actionClose)])
     \<noteq> []
   \<and> focusedPanel (run (NewDashboard ''all'' False None None)
      [Run_Start world0, add_task ''T1'' 1, add_task ''T2'' 2,
       Turn_Input world0 (press actionSelectNext), Turn_Input world0 (press actionClose)]) = 0
   \<and> len (panels (run (NewDashboard ''all'' False None None)
      [Run_Start world0, add_task ''T1'' 1, add_task ''T2'' 2,
       Turn_Input world0 (press actionSelectNext), Turn_Input world0 (press actionClose)])) = 1
   \<and> focusedPanel (run (NewDashboard ''all'' False None None)
      [Run_Start world0, add_task ''T1'' 1, Turn_Input world0 (press actionClose)]) = - 1"
proof -
  let ?ts = "[Run_Start world0, add_task ''T1'' 1, add_task ''T2'' 2,
       Turn_Input world0 (press actionSelectNext), Turn_Input world0 (press actionClose)]"
  let ?us = "[Run_Start world0, add_task ''T1'' 1, Turn_Input world0 (press actionClose)]"
  have n: "len (panels (run (NewDashboard ''all'' False None None) ?ts)) = 1"
    by code_simp
  have e: "panels (run (NewDashboard ''all'' False None None) ?us) = []"
    by code_simp
  from n have ne: "panels (run (NewDashboard ''all'' False None None) ?ts) \<noteq> []"
    by (auto simp: len_def)
  from ne n e focus_invariant [of "''all''" False None None ?ts]
    focus_invariant [of "''all''" False None None ?us]
  show ?thesis by simp
qed

subsection \<open>Routing an output line\<close>

lemma appendAgentOutput_loop_none:
  "\<forall>p \<in> set ps. TaskID p \<noteq> taskID \<Longrightarrow> appendAgentOutput_loop parse vh taskID line ps = ps"
  by (induction ps) simp_all

lemma appendAgentOutput_loop_first:
  assumes "i < length ps" and "TaskID (ps ! i) = taskID"
    and "\<forall>j<i. TaskID (ps ! j) \<noteq> taskID"
  shows "appendAgentOutput_loop parse vh taskID line ps =
     (if parse (Text line) = '''' then ps
      else ps[i := (ps ! i)\<lparr>
        Output := Output (ps ! i) @ [\<lparr>Text = parse (Text line), IsStderr = IsStderr line,
                                     Timestamp = Timestamp line\<rparr>],
        ScrollPos := (if Follow (ps ! i)
                      then clampScroll (len (Output (ps ! i)) + 1) vh (ScrollPos (ps ! i)) True
                      else ScrollPos (ps ! i))\<rparr>])"
  using assms
proof (induction ps arbitrary: i)
  case Nil
  then show ?case by simp
next
  case (Cons p ps)
  show ?case
  proof (cases i)
    case 0
    with Cons.prems show ?thesis
      by (simp add: Let_def len_def add.commute)
  next
    case (Suc k)
    from Cons.prems Suc have head: "TaskID p \<noteq> taskID" by auto
    from Cons.prems Suc have k: "k < length ps" "TaskID (ps ! k) = taskID"
      "\<forall>j<k. TaskID (ps ! j) \<noteq> taskID" by auto
    from Cons.IH [OF k] head Suc show ?thesis by simp
  qed
qed

text \<open>
  C10.  An output event for a task id that no panel has leaves the dashboard unchanged.
  Otherwise the event goes to the first panel with that task id: the text of the line is
  passed through \<open>parseClaudeOutput\<close>; when the parsed text is empty the dashboard is
  left unchanged (the line is dropped); when it is not, the line with the parsed text in
  place of the received one is appended to that panel's output, the scroll position is
  clamped to the bottom if the panel follows, and nothing else changes.
\<close>

theorem appendAgentOutput_routing:
  "((\<forall>p \<in> set (panels d). TaskID p \<noteq> taskID) \<longrightarrow> appendAgentOutput w d taskID line = d)
   \<and> (i < length (panels d) \<and> TaskID (panels d ! i) = taskID
        \<and> (\<forall>j<i. TaskID (panels d ! j) \<noteq> taskID) \<longrightarrow>
       (parseClaudeOutput w (Text line) = '''' \<longrightarrow> appendAgentOutput w d taskID line = d)
     \<and> (parseClaudeOutput w (Text line) \<noteq> '''' \<longrightarrow>
          appendAgentOutput w d taskID line =
            d\<lparr>panels := (panels d)[i := (panels d ! i)\<lparr>
               Output := Output (panels d ! i)
                  @ [\<lparr>Text = parseClaudeOutput w (Text line), IsStderr = IsStderr line,
                      Timestamp = Timestamp line\<rparr>],
               ScrollPos :=
                 (if Follow (panels d ! i)
                  then clampScroll (len (Output (panels d ! i)) + 1) (outputViewHeight d)
                         (ScrollPos (panels d ! i)) True
                  else ScrollPos (panels d ! i))\<rparr>]\<rparr>))"
proof -
  have a: "(\<forall>p \<in> set (panels d). TaskID p \<noteq> taskID) \<longrightarrow> appendAgentOutput w d taskID line = d"
    by (simp add: appendAgentOutput_def appendAgentOutput_loop_none)
  have b: "i < length (panels d) \<and> TaskID (panels d ! i) = taskID
        \<and> (\<forall>j<i. TaskID (panels d ! j) \<noteq> taskID) \<longrightarrow>
       (parseClaudeOutput w (Text line) = '''' \<longrightarrow> appendAgentOutput w d taskID line = d)
     \<and> (parseClaudeOutput w (Text line) \<noteq> '''' \<longrightarrow>
          appendAgentOutput w d taskID line =
            d\<lparr>panels := (panels d)[i := (panels d ! i)\<lparr>
               Output := Output (panels d ! i)
                  @ [\<lparr>Text = parseClaudeOutput w (Text line), IsStderr = IsStderr line,
                      Timestamp = Timestamp line\<rparr>],
               ScrollPos :=
                 (if Follow (panels d ! i)
                  then clampScroll (len (Output (panels d ! i)) + 1) (outputViewHeight d)
                         (ScrollPos (panels d ! i)) True
                  else ScrollPos (panels d ! i))\<rparr>]\<rparr>)"
  proof (intro impI, elim conjE)
    assume h: "i < length (panels d)" "TaskID (panels d ! i) = taskID"
      "\<forall>j<i. TaskID (panels d ! j) \<noteq> taskID"
    show "(parseClaudeOutput w (Text line) = '''' \<longrightarrow> appendAgentOutput w d taskID line = d)
     \<and> (parseClaudeOutput w (Text line) \<noteq> '''' \<longrightarrow>
          appendAgentOutput w d taskID line =
            d\<lparr>panels := (panels d)[i := (panels d ! i)\<lparr>
               Output := Output (panels d ! i)
                  @ [\<lparr>Text = parseClaudeOutput w (Text line), IsStderr = IsStderr line,
                      Timestamp = Timestamp line\<rparr>],
               ScrollPos :=
                 (if Follow (panels d ! i)
                  then clampScroll (len (Output (panels d ! i)) + 1) (outputViewHeight d)
                         (ScrollPos (panels d ! i)) True
                  else ScrollPos (panels d ! i))\<rparr>]\<rparr>)"
      by (simp add: appendAgentOutput_def
            appendAgentOutput_loop_first [OF h, of "parseClaudeOutput w" "outputViewHeight d" line])
  qed
  from a b show ?thesis by blast
qed

theorem appendAgentOutput_routing_witness:
  "map TaskID (panels (dash0 1)) = [''T1'', ''T2'', ''T3'']
   \<and> appendAgentOutput world0 (dash0 1) ''T9'' \<lparr>Text = ''hello'', IsStderr = False, Timestamp = 5\<rparr>
       = dash0 1
   \<and> parseClaudeOutput world0 ''{}'' = ''''
   \<and> appendAgentOutput world0 (dash0 1) ''T2'' \<lparr>Text = ''{}'', IsStderr = False, Timestamp = 5\<rparr>
       = dash0 1
   \<and> parseClaudeOutput world0 ''hello'' = ''> hello''
   \<and> Output (panels (appendAgentOutput world0 (dash0 1) ''T2''
         \<lparr>Text = ''hello'', IsStderr = True, Timestamp = 5\<rparr>) ! 1)
       = [\<lparr>Text = ''> hello'', IsStderr = True, Timestamp = 5\<rparr>]"
proof -
  have none: "\<forall>p \<in> set (panels (dash0 1)). TaskID p \<noteq> ''T9''"
    by (simp add: dash0_panels panel0_def)
  have first: "(1::nat) < length (panels (dash0 1))" "TaskID (panels (dash0 1) ! 1) = ''T2''"
    "\<forall>j<1. TaskID (panels (dash0 1) ! j) \<noteq> ''T2''"
    by (simp_all add: dash0_panels panel0_def)
  have parse: "parseClaudeOutput world0 ''{}'' = ''''"
    "parseClaudeOutput world0 ''hello'' = ''> hello''"
    by (simp_all add: world0_def)
  from none first parse
    appendAgentOutput_routing [of "dash0 1" "''T9''" world0
      "\<lparr>Text = ''hello'', IsStderr = False, Timestamp = 5\<rparr>" 1]
    appendAgentOutput_routing [of "dash0 1" "''T2''" world0
      "\<lparr>Text = ''{}'', IsStderr = False, Timestamp = 5\<rparr>" 1]
    appendAgentOutput_routing [of "dash0 1" "''T2''" world0
      "\<lparr>Text = ''hello'', IsStderr = True, Timestamp = 5\<rparr>" 1]
  show ?thesis
    by (simp add: dash0_panels panel0_def)
qed

subsection \<open>Moving the focus\<close>

lemma outputViewHeight_range: "8 \<le> outputViewHeight d \<and> outputViewHeight d \<le> 18"
  by (simp add: outputViewHeight_def Let_def)

lemma outputViewHeight_upd:
  "outputViewHeight (d\<lparr>focusedPanel := k\<rparr>) = outputViewHeight d"
  "outputViewHeight (d\<lparr>panels := ps\<rparr>) = outputViewHeight d"
  by (simp_all add: outputViewHeight_def)

lemma clampScroll_follow:
  assumes "in_go_int (len xs)" and "8 \<le> vh" and "vh \<le> 18"
  shows "clampScroll (len xs) vh pos True = max 0 (len xs - vh)"
proof -
  from assms have "in_go_int (len xs - vh)"
    by (simp add: in_go_int_def len_def)
  then have "go_int (len xs - vh) = len xs - vh"
    by (rule go_int_id)
  with assms show ?thesis
    by (simp add: clampScroll_def Let_def max_def)
qed

lemma ensureFollow_panels:
  assumes "0 \<le> k" and "k < len (panels d)"
  shows "ensureFollow d k = d\<lparr>panels := (panels d)[nat k := (panels d ! nat k)\<lparr>Follow := True,
           ScrollPos := clampScroll (len (Output (panels d ! nat k))) (outputViewHeight d)
                          (ScrollPos (panels d ! nat k)) True\<rparr>]\<rparr>"
  using assms by (simp add: ensureFollow_def Let_def)

text \<open>What a selection leaves behind when the focus moves to \<open>k\<close>.\<close>

lemma refocus:
  assumes k: "0 \<le> k" "k < len (panels d)"
    and sz: "\<forall>p \<in> set (panels d). in_go_int (len (Output p))"
  defines "d' \<equiv> ensureFollow (d\<lparr>focusedPanel := k\<rparr>) k"
  shows "focusedPanel d' = k"
    and "at_bottom d' (focused d')"
    and "length (panels d') = length (panels d)"
    and "\<forall>j < length (panels d). Output (panels d' ! j) = Output (panels d ! j)
           \<and> (j \<noteq> nat (focusedPanel d') \<longrightarrow> panels d' ! j = panels d ! j)"
proof -
  let ?p = "panels d ! nat k"
  from k have n: "nat k < length (panels d)" by (simp add: len_def)
  then have "?p \<in> set (panels d)" by simp
  with sz have "in_go_int (len (Output ?p))" by blast
  then have cl: "clampScroll (len (Output ?p)) (outputViewHeight d) (ScrollPos ?p) True
      = max 0 (len (Output ?p) - outputViewHeight d)"
    using outputViewHeight_range [of d] by (simp add: clampScroll_follow)
  have eq: "d' = d\<lparr>focusedPanel := k, panels := (panels d)[nat k := ?p\<lparr>Follow := True,
           ScrollPos := max 0 (len (Output ?p) - outputViewHeight d)\<rparr>]\<rparr>"
    using k cl ensureFollow_panels [of k "d\<lparr>focusedPanel := k\<rparr>"]
    by (simp add: d'_def outputViewHeight_upd)
  show "focusedPanel d' = k" by (simp add: eq)
  show "at_bottom d' (focused d')"
    using n by (simp add: eq at_bottom_def focused_def outputViewHeight_upd)
  show "length (panels d') = length (panels d)" by (simp add: eq)
  show "\<forall>j < length (panels d). Output (panels d' ! j) = Output (panels d ! j)
           \<and> (j \<noteq> nat (focusedPanel d') \<longrightarrow> panels d' ! j = panels d ! j)"
    using n by (auto simp: eq nth_list_update)
qed

lemma select_next_eq:
  assumes "focus_ok d" and "panels d \<noteq> []" and "action input = actionSelectNext"
  shows "handleInput w d input =
     (False, ensureFollow (d\<lparr>focusedPanel :=
         (if focusedPanel d = len (panels d) - 1 then 0 else focusedPanel d + 1)\<rparr>)
         (if focusedPanel d = len (panels d) - 1 then 0 else focusedPanel d + 1), [])"
  using assms by (auto simp: handleInput_def focus_ok_def len_def Let_def)

lemma select_prev_eq:
  assumes "focus_ok d" and "panels d \<noteq> []" and "action input = actionSelectPrev"
  shows "handleInput w d input =
     (False, ensureFollow (d\<lparr>focusedPanel :=
         (if focusedPanel d = 0 then len (panels d) - 1 else focusedPanel d - 1)\<rparr>)
         (if focusedPanel d = 0 then len (panels d) - 1 else focusedPanel d - 1), [])"
  using assms by (auto simp: handleInput_def focus_ok_def len_def Let_def)

text \<open>
  C6.  Let the focus be \<open>-1\<close> with no panel and an index of the panel list otherwise.
  With no panel, select-next and select-prev change nothing and the focus stays \<open>-1\<close>.
  With panels, select-next moves the focus to the next index and from the last index to
  0; select-prev moves it to the previous index and from 0 to the last index.  After
  either, the newly focused panel follows and its scroll position is the bottom,
  \<open>max 0 (len output - view height)\<close>; no output and no other panel is changed.
\<close>

theorem focus_cycling:
  assumes ok: "focus_ok d"
    and sz: "\<forall>p \<in> set (panels d). in_go_int (len (Output p))"
    and nx: "action next = actionSelectNext"
    and pv: "action prev = actionSelectPrev"
  shows "(panels d = [] \<longrightarrow>
            focusedPanel d = - 1 \<and> handleInput w d next = (False, d, [])
            \<and> handleInput w d prev = (False, d, []))
    \<and> (panels d \<noteq> [] \<longrightarrow>
         (\<exists>dn. handleInput w d next = (False, dn, [])
            \<and> focusedPanel dn
                = (if focusedPanel d = len (panels d) - 1 then 0 else focusedPanel d + 1)
            \<and> at_bottom dn (focused dn)
            \<and> length (panels dn) = length (panels d)
            \<and> (\<forall>j < length (panels d). Output (panels dn ! j) = Output (panels d ! j)
                 \<and> (j \<noteq> nat (focusedPanel dn) \<longrightarrow> panels dn ! j = panels d ! j)))
       \<and> (\<exists>dp. handleInput w d prev = (False, dp, [])
            \<and> focusedPanel dp
                = (if focusedPanel d = 0 then len (panels d) - 1 else focusedPanel d - 1)
            \<and> at_bottom dp (focused dp)
            \<and> length (panels dp) = length (panels d)
            \<and> (\<forall>j < length (panels d). Output (panels dp ! j) = Output (panels d ! j)
                 \<and> (j \<noteq> nat (focusedPanel dp) \<longrightarrow> panels dp ! j = panels d ! j))))"
proof (cases "panels d = []")
  case True
  with ok nx pv show ?thesis
    by (simp add: focus_ok_def handleInput_def len_def)
next
  case False
  let ?kn = "if focusedPanel d = len (panels d) - 1 then 0 else focusedPanel d + 1"
  let ?kp = "if focusedPanel d = 0 then len (panels d) - 1 else focusedPanel d - 1"
  from ok False have kn: "0 \<le> ?kn" "?kn < len (panels d)"
    by (auto simp: focus_ok_def len_def)
  from ok False have kp: "0 \<le> ?kp" "?kp < len (panels d)"
    by (auto simp: focus_ok_def len_def)
  note n = select_next_eq [OF ok False nx, of w]
  note p = select_prev_eq [OF ok False pv, of w]
  note rn = refocus [OF kn sz]
  note rp = refocus [OF kp sz]
  from n rn have a: "\<exists>dn. handleInput w d next = (False, dn, [])
            \<and> focusedPanel dn = ?kn
            \<and> at_bottom dn (focused dn)
            \<and> length (panels dn) = length (panels d)
            \<and> (\<forall>j < length (panels d). Output (panels dn ! j) = Output (panels d ! j)
                 \<and> (j \<noteq> nat (focusedPanel dn) \<longrightarrow> panels dn ! j = panels d ! j))"
    by blast
  from p rp have b: "\<exists>dp. handleInput w d prev = (False, dp, [])
            \<and> focusedPanel dp = ?kp
            \<and> at_bottom dp (focused dp)
            \<and> length (panels dp) = length (panels d)
            \<and> (\<forall>j < length (panels d). Output (panels dp ! j) = Output (panels d ! j)
                 \<and> (j \<noteq> nat (focusedPanel dp) \<longrightarrow> panels dp ! j = panels d ! j))"
    by blast
  from False a b show ?thesis by blast
qed

lemma focus_ok_dash0: "0 \<le> f \<Longrightarrow> f < 3 \<Longrightarrow> focus_ok (dash0 f)"
  by (simp add: focus_ok_def dash0_panels len_def)

lemma sizes_dash0: "\<forall>p \<in> set (panels (dash0 f)). in_go_int (len (Output p))"
  by (simp add: dash0_panels panel0_def len_def in_go_int_def)

theorem focus_cycling_witness:
  "focusedPanel (dash0 2) = 2 \<and> focusedPanel (dash0 0) = 0
   \<and> length (panels (dash0 2)) = 3
   \<and> action (press actionSelectNext) = actionSelectNext
   \<and> action (press actionSelectPrev) = actionSelectPrev
   \<and> focusedPanel (fst (snd (handleInput world0 (dash0 2) (press actionSelectNext)))) = 0
   \<and> focusedPanel (fst (snd (handleInput world0 (dash0 0) (press actionSelectPrev)))) = 2
   \<and> panels (NewDashboard ''all'' False None None :: (bool, nat) Dashboard) = []
   \<and> handleInput world0 (NewDashboard ''all'' False None None) (press actionSelectNext)
       = (False, NewDashboard ''all'' False None None, [])"
proof -
  have nx: "action (press actionSelectNext) = actionSelectNext"
    and pv: "action (press actionSelectPrev) = actionSelectPrev"
    by (simp_all add: press_def)
  have ok2: "focus_ok (dash0 2)" and ok0: "focus_ok (dash0 0)"
    by (simp_all add: focus_ok_dash0)
  have ne: "panels (dash0 f) \<noteq> []" for f
    by (simp add: dash0_panels)
  let ?new = "NewDashboard ''all'' False None None :: (bool, nat) Dashboard"
  have okn: "focus_ok ?new" and en: "panels ?new = []"
    by (simp_all add: focus_ok_def NewDashboard_def)
  have szn: "\<forall>p \<in> set (panels ?new). in_go_int (len (Output p))"
    by (simp add: en)
  from focus_cycling [OF ok2 sizes_dash0 nx pv, of world0] ne [of 2]
  have a: "focusedPanel (fst (snd (handleInput world0 (dash0 2) (press actionSelectNext)))) = 0"
    by (auto simp: dash0_panels len_def)
  from focus_cycling [OF ok0 sizes_dash0 nx pv, of world0] ne [of 0]
  have b: "focusedPanel (fst (snd (handleInput world0 (dash0 0) (press actionSelectPrev)))) = 2"
    by (auto simp: dash0_panels len_def)
  from focus_cycling [OF okn szn nx pv, of world0] en
  have c: "handleInput world0 ?new (press actionSelectNext) = (False, ?new, [])"
    by simp
  from a b c nx pv en show ?thesis
    by (simp add: dash0_panels)
qed

subsection \<open>Stopping a panel once\<close>

lemma calls_for_append: "calls_for i (xs @ ys) = calls_for i xs + calls_for i ys"
  by (simp add: calls_for_def)

text \<open>A stop makes no call, or one call for the focused panel, which is then stopping.\<close>

lemma stopFocusedPanel_cases:
  assumes "stopFocusedPanel w d = (d1, c1)"
  shows "(c1 = [] \<and> d1 = d)
     \<or> (\<exists>r. c1 = [Runner_Cancel (nat (focusedPanel d)) r]
          \<and> focus_in_range d
          \<and> \<not> Stopping (panels d ! nat (focusedPanel d))
          \<and> panels d1 = (panels d)[nat (focusedPanel d) :=
                (panels d ! nat (focusedPanel d))\<lparr>Stopping := True\<rparr>]
          \<and> focusedPanel d1 = focusedPanel d)"
  using assms
  by (auto simp: stopFocusedPanel_def Let_def split: if_splits option.splits)

lemma stopFocusedPanel_stopping:
  assumes "focus_in_range d \<longrightarrow> Stopping (panels d ! nat (focusedPanel d))"
  shows "stopFocusedPanel w d = (d, [])"
  using assms by (simp add: stopFocusedPanel_def Let_def)

text \<open>
  The sweep calls each panel at most once, calls only panels that were not stopping and
  leaves them stopping, and leaves the panels that were stopping as they are.
\<close>

lemma CancelAllAgents_loop_calls:
  assumes "CancelAllAgents_loop obs i ps = (ps', calls)"
  shows "length ps' = length ps
    \<and> (\<forall>j. calls_for j calls \<le> 1)
    \<and> (\<forall>j. calls_for j calls = 1 \<longrightarrow>
          i \<le> j \<and> j < i + length ps \<and> \<not> Stopping (ps ! (j - i)) \<and> Stopping (ps' ! (j - i)))
    \<and> (\<forall>k < length ps. Stopping (ps ! k) \<longrightarrow> ps' ! k = ps ! k)"
  using assms
proof (induction ps arbitrary: i ps' calls)
  case Nil
  then show ?case by (simp add: calls_for_def)
next
  case (Cons p ps)
  obtain rest' cs where rec: "CancelAllAgents_loop obs (Suc i) ps = (rest', cs)"
    by (cases "CancelAllAgents_loop obs (Suc i) ps") auto
  note ih = Cons.IH [OF rec]
  from ih have len: "length rest' = length ps" by blast
  from ih have le1: "\<And>j. calls_for j cs \<le> 1" by blast
  from ih have at: "\<And>j. calls_for j cs = 1 \<Longrightarrow>
      Suc i \<le> j \<and> j < Suc i + length ps \<and> \<not> Stopping (ps ! (j - Suc i))
        \<and> Stopping (rest' ! (j - Suc i))" by blast
  from ih have keep: "\<And>k. k < length ps \<Longrightarrow> Stopping (ps ! k) \<Longrightarrow> rest' ! k = ps ! k"
    by blast
  have noi: "calls_for i cs = 0"
  proof -
    have "calls_for i cs \<noteq> 1" using at [of i] by auto
    with le1 [of i] show ?thesis by arith
  qed
  have shift: "\<And>j. Suc i \<le> j \<Longrightarrow> (p # ps) ! (j - i) = ps ! (j - Suc i)"
    "\<And>j q. Suc i \<le> j \<Longrightarrow> (q # rest') ! (j - i) = rest' ! (j - Suc i)"
    by (simp_all add: Suc_diff_le)
  show ?case
  proof (cases "IsRunning (obs i) p \<and> Runner p \<noteq> None \<and> \<not> Stopping p")
    case True
    then obtain r where r: "Runner p = Some r" by auto
    with True rec Cons.prems have eq: "ps' = p\<lparr>Stopping := True\<rparr> # rest'"
      "calls = Runner_Cancel i r # cs" by auto
    have cf: "\<And>j. calls_for j calls = (if j = i then 1 else calls_for j cs)"
      using noi by (auto simp: eq calls_for_def)
    have a: "length ps' = length (p # ps)" by (simp add: eq len)
    have b: "\<forall>j. calls_for j calls \<le> 1" using le1 by (simp add: cf)
    have c: "\<forall>j. calls_for j calls = 1 \<longrightarrow>
          i \<le> j \<and> j < i + length (p # ps) \<and> \<not> Stopping ((p # ps) ! (j - i))
           \<and> Stopping (ps' ! (j - i))"
    proof (intro allI impI)
      fix j assume j: "calls_for j calls = 1"
      show "i \<le> j \<and> j < i + length (p # ps) \<and> \<not> Stopping ((p # ps) ! (j - i))
           \<and> Stopping (ps' ! (j - i))"
      proof (cases "j = i")
        case True
        with \<open>IsRunning (obs i) p \<and> Runner p \<noteq> None \<and> \<not> Stopping p\<close> show ?thesis
          by (simp add: eq)
      next
        case False
        with j cf have "calls_for j cs = 1" by simp
        from at [OF this] show ?thesis
          by (simp add: eq shift)
      qed
    qed
    have d: "\<forall>k < length (p # ps). Stopping ((p # ps) ! k) \<longrightarrow> ps' ! k = (p # ps) ! k"
      using keep True by (auto simp: eq nth_Cons split: nat.splits)
    from a b c d show ?thesis by blast
  next
    case False
    with rec Cons.prems have eq: "ps' = p # rest'" "calls = cs"
      by (auto split: option.splits)
    have a: "length ps' = length (p # ps)" by (simp add: eq len)
    have b: "\<forall>j. calls_for j calls \<le> 1" using le1 by (simp add: eq)
    have c: "\<forall>j. calls_for j calls = 1 \<longrightarrow>
          i \<le> j \<and> j < i + length (p # ps) \<and> \<not> Stopping ((p # ps) ! (j - i))
           \<and> Stopping (ps' ! (j - i))"
    proof (intro allI impI)
      fix j assume "calls_for j calls = 1"
      then have "calls_for j cs = 1" by (simp add: eq)
      from at [OF this] show "i \<le> j \<and> j < i + length (p # ps)
           \<and> \<not> Stopping ((p # ps) ! (j - i)) \<and> Stopping (ps' ! (j - i))"
        by (simp add: eq shift)
    qed
    have d: "\<forall>k < length (p # ps). Stopping ((p # ps) ! k) \<longrightarrow> ps' ! k = (p # ps) ! k"
      using keep by (auto simp: eq nth_Cons split: nat.splits)
    from a b c d show ?thesis by blast
  qed
qed

lemma CancelAllAgents_calls:
  assumes "CancelAllAgents obs d = (d', calls)"
  shows "calls_for j calls \<le> 1"
    and "calls_for j calls = 1 \<Longrightarrow>
           j < length (panels d) \<and> \<not> Stopping (panels d ! j) \<and> Stopping (panels d' ! j)"
    and "j < length (panels d) \<Longrightarrow> Stopping (panels d ! j) \<Longrightarrow> panels d' ! j = panels d ! j"
    and "length (panels d') = length (panels d)"
proof -
  obtain ps' where lp: "CancelAllAgents_loop obs 0 (panels d) = (ps', calls)"
    and d': "d' = d\<lparr>panels := ps'\<rparr>"
    using assms by (auto simp: CancelAllAgents_def split: prod.splits)
  note l = CancelAllAgents_loop_calls [OF lp]
  from l show "calls_for j calls \<le> 1" by blast
  from l show "length (panels d') = length (panels d)" by (simp add: d')
  from l show "j < length (panels d) \<Longrightarrow> Stopping (panels d ! j) \<Longrightarrow> panels d' ! j = panels d ! j"
    by (simp add: d')
  assume "calls_for j calls = 1"
  with l have "0 \<le> j \<and> j < 0 + length (panels d) \<and> \<not> Stopping (panels d ! (j - 0))
      \<and> Stopping (ps' ! (j - 0))" by blast
  then show "j < length (panels d) \<and> \<not> Stopping (panels d ! j) \<and> Stopping (panels d' ! j)"
    by (simp add: d')
qed

text \<open>
  C7.  Let a stop of the focused panel be followed by a second stop, or by the sweep of
  \<open>CancelAllAgents\<close>, whatever the runners answer at each moment; let the sweep be
  followed by a second sweep.  Then \<open>Runner.Cancel\<close> is called at most once for every
  panel over both steps.  When the first stop makes its call it sets the panel's
  \<open>Stopping\<close> flag; the second stop then makes no call and changes nothing, and the
  sweep makes no call for that panel and leaves it as it is.
\<close>

theorem stop_idempotent:
  assumes s1: "stopFocusedPanel w1 d = (d1, c1)"
    and s2: "stopFocusedPanel w2 d1 = (d2, c2)"
    and sw: "CancelAllAgents obs d1 = (d3, c3)"
    and sw2: "CancelAllAgents obs' d3 = (d4, c4)"
  shows "handleInput w1 d \<lparr>action = actionStop, val = v\<rparr> = (False, d1, c1)
    \<and> calls_for i (c1 @ c2) \<le> 1
    \<and> calls_for i (c1 @ c3) \<le> 1
    \<and> calls_for i (c3 @ c4) \<le> 1
    \<and> (c1 \<noteq> [] \<longrightarrow>
         Stopping (panels d1 ! nat (focusedPanel d)) \<and> c2 = [] \<and> d2 = d1
         \<and> calls_for (nat (focusedPanel d)) c3 = 0
         \<and> panels d3 ! nat (focusedPanel d) = panels d1 ! nat (focusedPanel d))"
proof -
  have hi: "handleInput w1 d \<lparr>action = actionStop, val = v\<rparr> = (False, d1, c1)"
    using s1 by (simp add: handleInput_def)
  have ss: "calls_for i (c3 @ c4) \<le> 1"
  proof (cases "calls_for i c3 = 1")
    case True
    from CancelAllAgents_calls(2) [OF sw True] have "Stopping (panels d3 ! i)" by blast
    with CancelAllAgents_calls(2) [OF sw2, of i] have "calls_for i c4 \<noteq> 1" by blast
    with CancelAllAgents_calls(1) [OF sw2, of i] have "calls_for i c4 = 0" by arith
    with True show ?thesis by (simp add: calls_for_append)
  next
    case False
    with CancelAllAgents_calls(1) [OF sw, of i] have "calls_for i c3 = 0" by arith
    with CancelAllAgents_calls(1) [OF sw2, of i] show ?thesis by (simp add: calls_for_append)
  qed
  from stopFocusedPanel_cases [OF s1] show ?thesis
  proof (elim disjE conjE exE)
    assume c1: "c1 = []" and "d1 = d"
    from stopFocusedPanel_cases [OF s2] have "calls_for i c2 \<le> 1"
      by (auto simp: calls_for_def)
    moreover have "calls_for i c3 \<le> 1" by (rule CancelAllAgents_calls(1) [OF sw])
    ultimately show ?thesis using c1 hi ss by (simp add: calls_for_def)
  next
    fix r
    let ?f = "nat (focusedPanel d)"
    assume c1: "c1 = [Runner_Cancel ?f r]" and inr: "focus_in_range d"
      and ps: "panels d1 = (panels d)[?f := (panels d ! ?f)\<lparr>Stopping := True\<rparr>]"
      and fp: "focusedPanel d1 = focusedPanel d"
    from inr have f: "?f < length (panels d)"
      by (auto simp: focus_in_range_def len_def)
    then have st: "Stopping (panels d1 ! ?f)" by (simp add: ps)
    from st fp have "stopFocusedPanel w2 d1 = (d1, [])"
      by (simp add: stopFocusedPanel_stopping)
    with s2 have s2': "d2 = d1" "c2 = []" by simp_all
    have f1: "?f < length (panels d1)" using f by (simp add: ps)
    have "calls_for ?f c3 \<noteq> 1"
      using CancelAllAgents_calls(2) [OF sw, of ?f] st by blast
    with CancelAllAgents_calls(1) [OF sw, of ?f] have z: "calls_for ?f c3 = 0" by arith
    have keep: "panels d3 ! ?f = panels d1 ! ?f"
      by (rule CancelAllAgents_calls(3) [OF sw f1 st])
    have "calls_for i (c1 @ c3) \<le> 1"
    proof (cases "i = ?f")
      case True
      with z show ?thesis by (simp add: calls_for_def c1)
    next
      case False
      with CancelAllAgents_calls(1) [OF sw, of i] show ?thesis
        by (simp add: calls_for_def c1)
    qed
    moreover have "calls_for i (c1 @ c2) \<le> 1" by (simp add: s2' c1 calls_for_def)
    ultimately show ?thesis using st s2' z keep c1 hi ss by simp
  qed
qed

theorem stop_idempotent_witness:
  "snd (stopFocusedPanel world0 (dash0 1)) = [Runner_Cancel 1 2]
   \<and> stopFocusedPanel world0 (fst (stopFocusedPanel world0 (dash0 1)))
     = (fst (stopFocusedPanel world0 (dash0 1)), [])
   \<and> snd (CancelAllAgents (\<lambda>i. world0) (fst (stopFocusedPanel world0 (dash0 1))))
     = [Runner_Cancel 0 1, Runner_Cancel 2 3]
   \<and> snd (CancelAllAgents (\<lambda>i. world0)
        (fst (CancelAllAgents (\<lambda>i. world0) (fst (stopFocusedPanel world0 (dash0 1)))))) = []
   \<and> Stopping (panels (fst (stopFocusedPanel world0 (dash0 1))) ! 1)
   \<and> calls_for 1 ([Runner_Cancel 1 (2::nat)] @ [Runner_Cancel 0 1, Runner_Cancel 2 3]) \<le> 1"
proof -
  let ?d1 = "fst (stopFocusedPanel world0 (dash0 1))"
  let ?d3 = "fst (CancelAllAgents (\<lambda>i. world0) ?d1)"
  let ?d4 = "fst (CancelAllAgents (\<lambda>i. world0) ?d3)"
  have c1: "snd (stopFocusedPanel world0 (dash0 1)) = [Runner_Cancel 1 2]"
    by code_simp
  have s2: "stopFocusedPanel world0 ?d1 = (?d1, [])"
    by code_simp
  have c3: "snd (CancelAllAgents (\<lambda>i. world0) ?d1) = [Runner_Cancel 0 1, Runner_Cancel 2 3]"
    by code_simp
  have c4: "snd (CancelAllAgents (\<lambda>i. world0) ?d3) = []"
    by code_simp
  have s1: "stopFocusedPanel world0 (dash0 1) = (?d1, [Runner_Cancel 1 2])"
    by (simp add: prod_eq_iff c1)
  have sw: "CancelAllAgents (\<lambda>i. world0) ?d1 = (?d3, [Runner_Cancel 0 1, Runner_Cancel 2 3])"
    by (simp add: prod_eq_iff c3)
  have sw2: "CancelAllAgents (\<lambda>i. world0) ?d3 = (?d4, [])"
    by (simp add: prod_eq_iff c4)
  from stop_idempotent [OF s1 s2 sw sw2, of 0 1] c1 s2 c3 c4 show ?thesis
    by (simp add: dash0_panels)
qed

end
